theory Spec2Isabelle
  imports Main "HOL-Library.Sublist"
begin

section \<open>Python strings and number formatting\<close>

text \<open>
  File names, paths and log messages are Python \<open>str\<close> values, modelled as \<open>string\<close>.
  The model covers ASCII text: \<open>lower_char\<close> maps \<open>A\<close>..\<open>Z\<close> to \<open>a\<close>..\<open>z\<close> and leaves
  every other character as it is, which is what \<open>str.lower\<close> does on ASCII.
\<close>

definition lower_char :: "char \<Rightarrow> char" where
  "lower_char c =
     (case map_of (zip ''ABCDEFGHIJKLMNOPQRSTUVWXYZ'' ''abcdefghijklmnopqrstuvwxyz'') c of
        Some l \<Rightarrow> l
      | None \<Rightarrow> c)"

definition lower :: "string \<Rightarrow> string" where
  "lower s = map lower_char s"

text \<open>\<open>s.startswith(p)\<close>, \<open>s.endswith(p)\<close> and \<open>sub in s\<close>.\<close>

fun startswith :: "string \<Rightarrow> string \<Rightarrow> bool" where
  "startswith s [] = True"
| "startswith [] (p # ps) = False"
| "startswith (c # cs) (p # ps) = (c = p \<and> startswith cs ps)"

definition endswith :: "string \<Rightarrow> string \<Rightarrow> bool" where
  "endswith s suf = startswith (rev s) (rev suf)"

fun str_contains :: "string \<Rightarrow> string \<Rightarrow> bool" where
  "str_contains sub [] = (sub = [])"
| "str_contains sub (c # cs) = (startswith (c # cs) sub \<or> str_contains sub cs)"

text \<open>\<open>s.split(sep)\<close> for a one-character separator: never the empty list.\<close>

fun split_chr :: "char \<Rightarrow> string \<Rightarrow> string list" where
  "split_chr sep [] = [[]]"
| "split_chr sep (c # cs) =
     (if c = sep then [] # split_chr sep cs
      else (case split_chr sep cs of
              [] \<Rightarrow> [[c]]
            | w # ws \<Rightarrow> (c # w) # ws))"

text \<open>\<open>sep.join(lines)\<close>.\<close>

fun join_with :: "string \<Rightarrow> string list \<Rightarrow> string" where
  "join_with sep [] = []"
| "join_with sep [l] = l"
| "join_with sep (l # l' # ls) = l @ sep @ join_with sep (l' # ls)"

definition squote :: "string \<Rightarrow> string" where
  "squote s = [CHR 0x27] @ s @ [CHR 0x27]"

definition dquote :: "string \<Rightarrow> string" where
  "dquote s = [CHR 0x22] @ s @ [CHR 0x22]"

definition nl :: string where
  "nl = [CHR 0x0A]"

text \<open>\<open>str(n)\<close> for a non-negative integer.\<close>

definition digit_chr :: "nat \<Rightarrow> char" where
  "digit_chr d = ''0123456789'' ! (d mod 10)"

fun str_nat :: "nat \<Rightarrow> string" where
  "str_nat n = (if n < 10 then [digit_chr n] else str_nat (n div 10) @ [digit_chr (n mod 10)])"

declare str_nat.simps [simp del]

text \<open>
  Floating point. Every float the scripts format is a quotient of an integer by a power of
  two (\<open>size/1024\<close>, \<open>size/1024**3\<close>) or a clock difference, so it is a dyadic rational
  \<open>m / 2^k\<close> with a sign, and the two operations on it are exact integer arithmetic:
  \<^item> Python's \<open>int / int\<close> is the correctly rounded quotient; dividing by \<open>2^k\<close> only
    changes the exponent, so the result is \<open>to_double m / 2^k\<close>, where \<open>to_double\<close> rounds \<open>m\<close>
    to 53 significant bits, ties to even (the identity below \<open>2^53\<close>). Byte counts are far
    below the overflow threshold \<open>2^1024\<close> of a double, so OverflowError is not modelled.
  \<^item> \<open>format(x, '.2f')\<close> rounds the exact value of \<open>x\<close> to two decimals, ties to even, and
    prints the sign of \<open>x\<close> even when the digits are all zero.
\<close>

definition round_half_even_div :: "nat \<Rightarrow> nat \<Rightarrow> nat" where
  "round_half_even_div a b =
     (let q = a div b; r = a mod b
      in if 2 * r < b then q
         else if b < 2 * r then q + 1
         else if even q then q else q + 1)"

fun bit_length :: "nat \<Rightarrow> nat" where
  "bit_length n = (if n = 0 then 0 else Suc (bit_length (n div 2)))"

declare bit_length.simps [simp del]

definition to_double :: "nat \<Rightarrow> nat" where
  "to_double m =
     (if bit_length m \<le> 53 then m
      else (let sh = bit_length m - 53 in round_half_even_div m (2 ^ sh) * 2 ^ sh))"

definition fmt_2f :: "bool \<Rightarrow> nat \<Rightarrow> nat \<Rightarrow> string" where
  \<comment> \<open>\<open>format(x, '.2f')\<close> for \<open>x = \<plusminus> m / 2^k\<close>; the flag says \<open>x < 0\<close>\<close>
  "fmt_2f neg m k =
     (let h = round_half_even_div (m * 100) (2 ^ k)
      in (if neg then ''-'' else '''') @ str_nat (h div 100) @ ''.''
           @ [digit_chr (h mod 100 div 10), digit_chr (h mod 10)])"

definition fmt_div_2f :: "int \<Rightarrow> nat \<Rightarrow> string" where
  \<comment> \<open>the f-string field \<open>{n / 2**k:.2f}\<close> for a Python int \<open>n\<close>\<close>
  "fmt_div_2f n k = fmt_2f (n < 0) (to_double (nat \<bar>n\<bar>)) k"

section \<open>The file system seen by the Merge Orchestrator\<close>

text \<open>
  A directory is the list of its entries in the order the operating system lists them.
  \<open>os.walk\<close> (top-down, links not followed, listing errors ignored) yields for each
  directory its path, the names of its subdirectories and the names of its other entries,
  then walks the subdirectories in that order.
\<close>

datatype entry = File string | Dir string "entry list"

definition os_path_join :: "string \<Rightarrow> string \<Rightarrow> string" where
  "os_path_join a b =
     (if startswith b ''/'' then b
      else if a = [] \<or> endswith a ''/'' then a @ b
      else a @ ''/'' @ b)"

fun walk_dir :: "string \<Rightarrow> entry list \<Rightarrow> (string \<times> string list \<times> string list) list"
and walk_subdirs :: "string \<Rightarrow> entry list \<Rightarrow> (string \<times> string list \<times> string list) list" where
  "walk_dir root es =
     (root, [n. Dir n cs \<leftarrow> es], [n. File n \<leftarrow> es]) # walk_subdirs root es"
| "walk_subdirs root [] = []"
| "walk_subdirs root (File n # es) = walk_subdirs root es"
| "walk_subdirs root (Dir n cs # es) = walk_dir (os_path_join root n) cs @ walk_subdirs root es"

datatype error = OSError string | NameError string

fun str_error :: "error \<Rightarrow> string" where
  "str_error (OSError msg) = msg"
| "str_error (NameError msg) = msg"

record filesystem =
  tree :: "string \<Rightarrow> entry list option"
  getsize :: "string \<Rightarrow> error + nat"

definition os_walk :: "filesystem \<Rightarrow> string \<Rightarrow> (string \<times> string list \<times> string list) list" where
  "os_walk fs start = (case tree fs start of None \<Rightarrow> [] | Some es \<Rightarrow> walk_dir start es)"

section \<open>RootFileMerger\<close>

text \<open>
  The instance of class \<open>RootFileMerger\<close>. \<open>logged\<close> is the sequence of messages passed to
  the instance's logger, oldest first.
\<close>

record merger =
  base_dir :: string
  mergeFilePattern :: string
  output_file_name :: string
  file_dict :: "string \<rightharpoonup> string list"
  all_files :: "string list"
  logged :: "string list"

definition RootFileMerger :: "string \<Rightarrow> string \<Rightarrow> string \<Rightarrow> string list \<Rightarrow> merger" where
  "RootFileMerger bd pat out lg =
     \<lparr>base_dir = bd, mergeFilePattern = pat, output_file_name = out,
      file_dict = Map.empty, all_files = [], logged = lg\<rparr>"

definition log :: "merger \<Rightarrow> string \<Rightarrow> merger" where
  "log m message = m\<lparr>logged := logged m @ [message]\<rparr>"

definition rule_line :: string where
  "rule_line = replicate 73 CHR ''-''"

definition banner_open :: string where
  "banner_open = nl @ nl @ rule_line @ nl"

definition banner_close :: string where
  "banner_close = nl @ rule_line @ nl @ nl"

subsection \<open>gather\_files\<close>

definition is_match :: "string \<Rightarrow> string \<Rightarrow> bool" where
  "is_match pat f =
     (endswith (lower f) ''.root''
      \<and> str_contains (lower (hd (split_chr CHR ''*'' pat))) (lower f))"

definition gather_step :: "merger \<Rightarrow> string \<times> string list \<times> string list \<Rightarrow> merger" where
  "gather_step m w =
     (case w of (root, dirs, files) \<Rightarrow>
        (let matching_files = [os_path_join root f. f \<leftarrow> files, is_match (mergeFilePattern m) f]
         in if matching_files \<noteq> []
            then log (log (log
                   (m\<lparr>file_dict := (file_dict m)(root \<mapsto> matching_files),
                      all_files := all_files m @ matching_files\<rparr>)
                   banner_open)
                   (''There are '' @ str_nat (length matching_files)
                      @ '' .root files in directory '' @ squote root @ ''.''))
                   banner_close
            else m))"

definition gather_files :: "filesystem \<Rightarrow> merger \<Rightarrow> merger" where
  "gather_files fs m = foldl gather_step m (os_walk fs (base_dir m))"

subsection \<open>estimate\_total\_size\<close>

text \<open>
  The loop over \<open>all_files\<close>. A size lookup that raises is caught inside the loop body:
  the failure is logged and the loop goes on with the next file.
\<close>

fun estimate_loop :: "filesystem \<Rightarrow> string list \<Rightarrow> nat \<times> merger \<Rightarrow> nat \<times> merger" where
  "estimate_loop fs [] (total_size, m) = (total_size, m)"
| "estimate_loop fs (file_path # rest) (total_size, m) =
     (case getsize fs file_path of
        Inr sz \<Rightarrow>
          estimate_loop fs rest
            (total_size + sz,
             log (log m
               (''The size of file '' @ squote file_path @ '' is ''
                  @ fmt_div_2f (int sz) 10 @ '' KB.''))
               (''The size of file '' @ squote file_path @ '' is ''
                  @ fmt_div_2f (int sz) 30 @ '' GB.''))
      | Inl e \<Rightarrow>
          estimate_loop fs rest
            (total_size,
             log m (''Failed to get size for file '' @ squote file_path @ '': ''
                      @ str_error e)))"

definition estimate_total_size :: "filesystem \<Rightarrow> merger \<Rightarrow> nat \<times> merger" where
  "estimate_total_size fs m =
     (case estimate_loop fs (all_files m) (0, m) of (total_size, m1) \<Rightarrow>
        (total_size,
         log (log (log (log m1
           banner_open)
           (''Estimated total size before merging is ''
              @ fmt_div_2f (int total_size) 10 @ '' KB.''))
           (''Estimated total size before merging is ''
              @ fmt_div_2f (int total_size) 30 @ '' GB.''))
           banner_close))"

subsection \<open>merge\_files\<close>

text \<open>
  The merge engine (ROOT's \<open>TFileMerger\<close>) is outside the repository. The model records
  the calls made on the engine object, in order, and takes the engine's behaviour as a
  parameter: given the calls received before \<open>Merge\<close> and the file system, it answers with
  its success flag and the file system it leaves behind.
\<close>

datatype engine_call =
  TFileMerger bool | SetPrintLevel int | OutputFile string | AddFile string | Merge

type_synonym engine = "engine_call list \<Rightarrow> filesystem \<Rightarrow> bool \<times> filesystem"

fun add_files :: "string list \<Rightarrow> engine_call list \<times> merger \<Rightarrow> engine_call list \<times> merger" where
  "add_files [] (calls, m) = (calls, m)"
| "add_files (file_path # rest) (calls, m) =
     add_files rest
       (calls @ [AddFile file_path],
        log m (''Added file '' @ squote file_path @ '' to the merge list.''))"

definition merge_files ::
  "engine \<Rightarrow> filesystem \<Rightarrow> merger \<Rightarrow> bool \<times> merger \<times> filesystem \<times> engine_call list" where
  "merge_files eng fs m =
     (case add_files (all_files m)
             ([TFileMerger False, SetPrintLevel 0, OutputFile (output_file_name m)], m)
      of (calls, m1) \<Rightarrow>
        (let m2 = log m1 ''Starting the merge process.'' in
         case eng calls fs of (success, fs') \<Rightarrow>
           if \<not> success
           then (False, log m2 ''The merge process failed!'', fs', calls @ [Merge])
           else (True, log m2 ''The merge process completed successfully.'', fs',
                 calls @ [Merge])))"

subsection \<open>compare\_sizes\<close>

definition compare_sizes :: "filesystem \<Rightarrow> merger \<Rightarrow> int \<Rightarrow> nat option \<times> merger" where
  "compare_sizes fs m estimated_size =
     (let m1 = log m banner_open in
      case getsize fs (output_file_name m) of
        Inr final_size \<Rightarrow>
          (let m2 = log m1 (''The merged file '' @ squote (output_file_name m)
                              @ '' has a size of '' @ fmt_div_2f (int final_size) 10
                              @ '' KB.'');
               diff = int final_size - estimated_size
           in (Some final_size,
               log m2 (''The difference between the estimated and merged file size is ''
                         @ fmt_div_2f diff 10 @ '' KB.'')))
      | Inl e \<Rightarrow>
          (None, log m1 (''Failed to obtain the size of the merged file: '' @ str_error e)))"

subsection \<open>main\<close>

text \<open>
  \<open>main\<close> after argument parsing, with \<open>base_dir\<close> already absolute. The clock difference
  \<open>elapsed_time\<close> is an input: the non-negative float \<open>mant / 2^ex\<close>. For such a float
  \<open>elapsed_time // 60\<close> and \<open>elapsed_time % 60\<close> are exact.

  The last statement of \<open>main\<close> is \<open>self.log(...)\<close>; \<open>main\<close> is a module-level function
  and has no \<open>self\<close>, so evaluating the name raises NameError, which nothing catches.
\<close>

record run =
  outcome :: "error + unit"
  inst :: merger
  disk :: filesystem
  engine_calls :: "engine_call list"

definition elapsed_message :: "nat \<times> nat \<Rightarrow> string" where
  "elapsed_message el =
     (case el of (mant, ex) \<Rightarrow>
        (let minutes = mant div (60 * 2 ^ ex);
             seconds = mant mod (60 * 2 ^ ex)
         in ''The merge job completed in '' @ fmt_2f False mant ex @ '' seconds (''
              @ str_nat minutes @ '' minutes and '' @ fmt_2f False seconds ex
              @ '' seconds).''))"

definition main :: "engine \<Rightarrow> filesystem \<Rightarrow> string \<Rightarrow> string \<Rightarrow> string \<Rightarrow> nat \<times> nat \<Rightarrow> run" where
  "main eng fs bd pat out el =
     (let merger_instance =
            RootFileMerger bd pat out [''Collecting .root files from subdirectories.''];
          m1 = gather_files fs merger_instance
      in case estimate_total_size fs m1 of (estimated_size, m2) \<Rightarrow>
         case merge_files eng fs m2 of (ok, m3, fs', calls) \<Rightarrow>
           (let m4 = (if ok then snd (compare_sizes fs' m3 (int estimated_size))
                      else log m3 ''The overall merge process failed.'');
                m5 = log m4 (elapsed_message el)
            in \<lparr>outcome = Inl (NameError (''name '' @ squote ''self'' @ '' is not defined'')),
                inst = m5, disk = fs', engine_calls = calls\<rparr>))"

section \<open>The Job Descriptor Generator\<close>

text \<open>
  What the generator sees and changes of the operating system: directory listings, the
  directory test, the operations that may raise (listing, creating the log directory,
  opening the artifact for writing, changing its mode), the text and the permission bits
  of files, and standard output.
\<close>

record host =
  listdir :: "string \<Rightarrow> error + string list"
  isdir :: "string \<Rightarrow> bool"
  makedirs_error :: "string \<Rightarrow> error option"
  open_error :: "string \<Rightarrow> error option"
  chmod_error :: "string \<Rightarrow> error option"
  text_of :: "string \<rightharpoonup> string"
  mode_of :: "string \<rightharpoonup> nat"
  creation_mode :: nat
  stdout :: "string list"

definition subdirs_of :: "host \<Rightarrow> string \<Rightarrow> error + string list" where
  \<comment> \<open>\<open>[d for d in os.listdir(p) if os.path.isdir(os.path.join(p, d))]\<close>\<close>
  "subdirs_of h storage_path =
     (case listdir h storage_path of
        Inl e \<Rightarrow> Inl e
      | Inr names \<Rightarrow> Inr [d. d \<leftarrow> names, isdir h (os_path_join storage_path d)])"

definition write_file :: "host \<Rightarrow> string \<Rightarrow> string \<Rightarrow> error + host" where
  \<comment> \<open>\<open>with open(path, "w") as f: f.write(text)\<close>\<close>
  "write_file h path txt =
     (case open_error h path of
        Some e \<Rightarrow> Inl e
      | None \<Rightarrow>
          Inr (h\<lparr>text_of := (text_of h)(path \<mapsto> txt),
                 mode_of := (case mode_of h path of
                               None \<Rightarrow> (mode_of h)(path \<mapsto> creation_mode h)
                             | Some _ \<Rightarrow> mode_of h)\<rparr>))"

definition os_chmod :: "host \<Rightarrow> string \<Rightarrow> nat \<Rightarrow> error + host" where
  "os_chmod h path md =
     (case chmod_error h path of
        Some e \<Rightarrow> Inl e
      | None \<Rightarrow> Inr (h\<lparr>mode_of := (mode_of h)(path \<mapsto> md)\<rparr>))"

definition os_makedirs :: "host \<Rightarrow> string \<Rightarrow> error + host" where
  \<comment> \<open>\<open>os.makedirs(path, exist_ok=True)\<close>\<close>
  "os_makedirs h path =
     (case makedirs_error h path of
        Some e \<Rightarrow> Inl e
      | None \<Rightarrow> Inr (h\<lparr>isdir := (isdir h)(path := True)\<rparr>))"

definition print :: "host \<Rightarrow> string \<Rightarrow> host" where
  "print h s = h\<lparr>stdout := stdout h @ [s]\<rparr>"

definition mode_0755 :: nat where
  "mode_0755 = 7 * 8 ^ 2 + 5 * 8 + 5"

definition local_header :: "string \<Rightarrow> string list" where
  "local_header storage_path =
     [''#!/bin/bash'',
      ''MERGE_DIR='' @ dquote storage_path,
      ''echo -e '' @ dquote ''  -- merger script -- > Set ntuple path [ ${MERGE_DIR} ]'',
      []]"

definition local_body :: "string \<Rightarrow> string list \<Rightarrow> string \<Rightarrow> string list" where
  \<comment> \<open>the three \<open>lines.append\<close> of the loop body\<close>
  "local_body pattern lines subdir =
     lines
       @ [''echo '' @ dquote (''Processing directory: '' @ subdir)]
       @ [''python3 -u mergeOutput.py --dir '' @ dquote (''${MERGE_DIR}/'' @ subdir)
            @ '' --pat '' @ pattern
            @ '' --out '' @ dquote (''${MERGE_DIR}/'' @ subdir @ ''.root'')]
       @ [[]]"

definition local_lines :: "string \<Rightarrow> string \<Rightarrow> string list \<Rightarrow> string list" where
  "local_lines storage_path pattern subdirs =
     foldl (local_body pattern) (local_header storage_path) subdirs
       @ [''echo '' @ dquote ''All merge jobs completed.'']"

definition generate_local_merge_script ::
  "host \<Rightarrow> string \<Rightarrow> string \<Rightarrow> string \<Rightarrow> (error + unit) \<times> host" where
  "generate_local_merge_script h storage_path scriptForMerge pattern =
     (case subdirs_of h storage_path of
        Inl e \<Rightarrow> (Inl e, h)
      | Inr subdirs \<Rightarrow>
          (case write_file h scriptForMerge
                  (join_with nl (local_lines storage_path pattern subdirs)) of
             Inl e \<Rightarrow> (Inl e, h)
           | Inr h1 \<Rightarrow>
               (case os_chmod h1 scriptForMerge mode_0755 of
                  Inl e \<Rightarrow> (Inl e, h1)
                | Inr h2 \<Rightarrow>
                    (Inr (), print h2 (''Local run script generated: '' @ scriptForMerge)))))"

definition condor_header :: "string list" where
  "condor_header =
     [''Executable      = mergeOutput.py'',
      ''getenv          = True'',
      ''should_transfer_files = No'',
      ''+JobFlavour      = '' @ dquote ''tomorrow'',
      []]"

definition condor_body :: "string \<Rightarrow> string \<Rightarrow> string list \<Rightarrow> string \<Rightarrow> string list" where
  \<comment> \<open>the six \<open>lines.append\<close> of the loop body\<close>
  "condor_body storage_path pattern lines subdir =
     (let full_dir = os_path_join storage_path subdir in
      lines
        @ [''arguments = --dir '' @ full_dir @ '' --pat '' @ pattern
             @ '' --out '' @ full_dir @ ''.root'']
        @ [''Output          = merge_condor_logs/'' @ subdir @ ''_$(Cluster)_$(Process).out'']
        @ [''Error           = merge_condor_logs/'' @ subdir @ ''_$(Cluster)_$(Process).err'']
        @ [''Log             = merge_condor_logs/'' @ subdir @ ''_$(Cluster).log'']
        @ [''queue'']
        @ [[]])"

definition condor_lines :: "string \<Rightarrow> string \<Rightarrow> string list \<Rightarrow> string list" where
  "condor_lines storage_path pattern subdirs =
     foldl (condor_body storage_path pattern) condor_header subdirs"

definition generate_condorMerge_submission_file ::
  "host \<Rightarrow> string \<Rightarrow> string \<Rightarrow> string \<Rightarrow> (error + unit) \<times> host" where
  "generate_condorMerge_submission_file h storage_path scriptForMerge pattern =
     (case subdirs_of h storage_path of
        Inl e \<Rightarrow> (Inl e, h)
      | Inr subdirs \<Rightarrow>
          (case os_makedirs h ''merge_condor_logs'' of
             Inl e \<Rightarrow> (Inl e, h)
           | Inr h1 \<Rightarrow>
               (case write_file h1 scriptForMerge
                       (join_with nl (condor_lines storage_path pattern subdirs)) of
                  Inl e \<Rightarrow> (Inl e, h1)
                | Inr h2 \<Rightarrow>
                    (Inr (), print h2 (''Condor submission file generated: ''
                                          @ scriptForMerge)))))"

section \<open>Observations used in the statements\<close>

text \<open>The engine's input list: the arguments of the \<open>AddFile\<close> calls, in call order.\<close>

fun input_list :: "engine_call list \<Rightarrow> string list" where
  "input_list [] = []"
| "input_list (AddFile p # cs) = p # input_list cs"
| "input_list (c # cs) = input_list cs"

text \<open>The size the estimate accounts for a file: its reported size, nothing when the lookup fails.\<close>

definition known_size :: "filesystem \<Rightarrow> string \<Rightarrow> nat" where
  "known_size fs file_path = (case getsize fs file_path of Inr sz \<Rightarrow> sz | Inl e \<Rightarrow> 0)"

text \<open>The messages one pass of the estimate loop logs for a file.\<close>

definition size_messages :: "filesystem \<Rightarrow> string \<Rightarrow> string list" where
  "size_messages fs file_path =
     (case getsize fs file_path of
        Inr sz \<Rightarrow>
          [''The size of file '' @ squote file_path @ '' is '' @ fmt_div_2f (int sz) 10 @ '' KB.'',
           ''The size of file '' @ squote file_path @ '' is '' @ fmt_div_2f (int sz) 30 @ '' GB.'']
      | Inl e \<Rightarrow>
          [''Failed to get size for file '' @ squote file_path @ '': '' @ str_error e])"

section \<open>Example inputs\<close>

text \<open>A base directory with two files of 1000 bytes each.\<close>

definition two_files :: filesystem where
  "two_files =
     \<lparr>tree = (\<lambda>p. if p = ''/base'' then Some [File ''out_1.root'', File ''out_2.root''] else None),
      getsize = (\<lambda>p. if p = ''/base/out_1.root'' then Inr 1000
                      else if p = ''/base/out_2.root'' then Inr 1000
                      else Inl (OSError ''No such file or directory''))\<rparr>"

text \<open>Three collected paths, the second of which has disappeared since discovery.\<close>

definition one_missing :: filesystem where
  "one_missing =
     \<lparr>tree = (\<lambda>p. None),
      getsize = (\<lambda>p. if p = ''/base/out_1.root'' then Inr 1000
                      else if p = ''/base/out_3.root'' then Inr 500
                      else Inl (OSError ''No such file or directory''))\<rparr>"

section \<open>Further observations\<close>

text \<open>
  The result of the \<open>merge_files\<close> call that \<open>main\<close> makes: its first component is what the
  merge engine reported in that run.
\<close>

definition merge_step ::
  "engine \<Rightarrow> filesystem \<Rightarrow> string \<Rightarrow> string \<Rightarrow> string
     \<Rightarrow> bool \<times> merger \<times> filesystem \<times> engine_call list" where
  "merge_step eng fs bd pat out =
     merge_files eng fs
       (snd (estimate_total_size fs
          (gather_files fs
             (RootFileMerger bd pat out [''Collecting .root files from subdirectories.'']))))"

text \<open>
  The messages that only \<open>compare_sizes\<close> writes: the size of the merged file, the difference
  to the estimate, and the failure to read the size.
\<close>

definition is_comparison_line :: "string \<Rightarrow> bool" where
  "is_comparison_line l =
     (startswith l ''The merged file ''
      \<or> startswith l ''The difference between the estimated and merged file size is ''
      \<or> startswith l ''Failed to obtain the size of the merged file: '')"

text \<open>An engine whose \<open>Merge\<close> reports failure and writes nothing.\<close>

definition failing_engine :: engine where
  "failing_engine calls fs = (False, fs)"

section \<open>Observations on the generated artifacts\<close>

text \<open>
  An orchestrator-invocation line of the local script, and the queue directive that ends a
  job stanza of the submission file.
\<close>

definition is_invocation_line :: "string \<Rightarrow> bool" where
  "is_invocation_line l = startswith l ''python3 -u mergeOutput.py ''"

definition is_queue_line :: "string \<Rightarrow> bool" where
  "is_queue_line l = (l = ''queue'')"


text \<open>
  A storage root with the subdirectories \<open>runA\<close> and \<open>runB\<close> and a plain file beside them,
  on a host where nothing fails and new files get mode 0644.
\<close>

definition storage :: host where
  "storage =
     \<lparr>listdir = (\<lambda>p. if p = ''/store/'' then Inr [''runA'', ''notes.txt'', ''runB'']
                      else Inl (OSError ''No such file or directory'')),
      isdir = (\<lambda>p. p = ''/store/runA'' \<or> p = ''/store/runB''),
      makedirs_error = (\<lambda>p. None),
      open_error = (\<lambda>p. None),
      chmod_error = (\<lambda>p. None),
      text_of = Map.empty,
      mode_of = Map.empty,
      creation_mode = 6 * 8 ^ 2 + 4 * 8 + 4,
      stdout = []\<rparr>"

text \<open>The paths one step of the walk contributes to \<open>all_files\<close>.\<close>

definition matching_in :: "string \<Rightarrow> string \<times> string list \<times> string list \<Rightarrow> string list" where
  "matching_in pat w =
     (case w of (root, dirs, files) \<Rightarrow> [os_path_join root f. f \<leftarrow> files, is_match pat f])"


text \<open>A merge engine stub that succeeds and leaves an output file of \<open>n\<close> bytes.\<close>

definition writing_engine :: "string \<Rightarrow> nat \<Rightarrow> engine" where
  "writing_engine out n calls fs = (True, fs\<lparr>getsize := (getsize fs)(out := Inr n)\<rparr>)"

text \<open>
  The matching rule in the words of the specification: the lowercased name ends with
  \<open>.root\<close> and contains, as a contiguous substring, the lowercased text of the pattern before
  its first \<open>*\<close>.
\<close>

definition spec_match :: "string \<Rightarrow> string \<Rightarrow> bool" where
  "spec_match pat name =
     (suffix ''.root'' (lower name)
      \<and> sublist (lower (takeWhile (\<lambda>c. c \<noteq> CHR ''*'') pat)) (lower name))"

text \<open>A base directory with two matching files, a data file and a file whose name only contains the prefix.\<close>

definition discovery_example :: filesystem where
  "discovery_example =
     \<lparr>tree = (\<lambda>p. if p = ''/base''
                   then Some [File ''out_1.root'', File ''out_2.root'', File ''skip.dat'',
                              File ''notout_1.root'']
                   else None),
      getsize = (\<lambda>p. Inr 1000)\<rparr>"

section \<open>Basic facts\<close>

lemma log_fields [simp]:
  "base_dir (log m s) = base_dir m"
  "mergeFilePattern (log m s) = mergeFilePattern m"
  "output_file_name (log m s) = output_file_name m"
  "file_dict (log m s) = file_dict m"
  "all_files (log m s) = all_files m"
  "logged (log m s) = logged m @ [s]"
  by (simp_all add: log_def)

lemma add_files_eq:
  "add_files xs (calls, m) =
     (calls @ map AddFile xs,
      m\<lparr>logged := logged m
           @ map (\<lambda>p. ''Added file '' @ squote p @ '' to the merge list.'') xs\<rparr>)"
  by (induction xs arbitrary: calls m) (simp_all add: log_def)

lemma estimate_loop_eq:
  "estimate_loop fs xs (t, m) =
     (t + sum_list (map (known_size fs) xs),
      m\<lparr>logged := logged m @ concat (map (size_messages fs) xs)\<rparr>)"
  by (induction xs arbitrary: t m)
     (simp_all add: log_def known_size_def size_messages_def split: sum.splits)

lemma estimate_total_size_fst:
  "fst (estimate_total_size fs m) = sum_list (map (known_size fs) (all_files m))"
  by (simp add: estimate_total_size_def estimate_loop_eq)

lemma input_list_append: "input_list (cs @ ds) = input_list cs @ input_list ds"
  by (induction cs rule: input_list.induct) simp_all

lemma input_list_map: "input_list (map AddFile xs) = xs"
  by (induction xs) simp_all

lemma count_Merge_map: "count_list (map AddFile xs) Merge = 0"
  by (induction xs) simp_all

lemma merge_files_eq:
  "merge_files eng fs m =
     (let calls = [TFileMerger False, SetPrintLevel 0, OutputFile (output_file_name m)]
                    @ map AddFile (all_files m);
          ok = fst (eng calls fs)
      in (ok,
          m\<lparr>logged := logged m
               @ map (\<lambda>p. ''Added file '' @ squote p @ '' to the merge list.'') (all_files m)
               @ [''Starting the merge process.'',
                  if ok then ''The merge process completed successfully.''
                  else ''The merge process failed!'']\<rparr>,
          snd (eng calls fs), calls @ [Merge]))"
  by (simp add: merge_files_def add_files_eq Let_def log_def split: prod.splits)

section \<open>The merge step\<close>

text \<open>
  Claim C4. \<open>merge_files\<close> configures the engine, then calls \<open>AddFile\<close> once for each
  element of \<open>all_files\<close>, in the order of \<open>all_files\<close>, so that the engine's input list is
  \<open>all_files\<close> itself; it then calls \<open>Merge\<close> exactly once, as the last call, and returns the
  flag the engine answers to that call.
\<close>

theorem merge_files_engine_calls:
  "(case merge_files eng fs m of (ok, m', fs', calls) \<Rightarrow>
      calls = [TFileMerger False, SetPrintLevel 0, OutputFile (output_file_name m)]
                @ map AddFile (all_files m) @ [Merge]
      \<and> input_list calls = all_files m
      \<and> count_list calls Merge = 1
      \<and> ok = fst (eng (butlast calls) fs))"
  by (simp add: merge_files_eq Let_def input_list_append input_list_map count_Merge_map
        butlast_append)

lemma estimate_total_size_logged:
  "logged (snd (estimate_total_size fs m)) =
     logged m @ concat (map (size_messages fs) (all_files m))
       @ [banner_open,
          ''Estimated total size before merging is ''
             @ fmt_div_2f (int (sum_list (map (known_size fs) (all_files m)))) 10 @ '' KB.'',
          ''Estimated total size before merging is ''
             @ fmt_div_2f (int (sum_list (map (known_size fs) (all_files m)))) 30 @ '' GB.'',
          banner_close]"
  by (simp add: estimate_total_size_def estimate_loop_eq)

lemma sum_known_sizes:
  "\<forall>q\<in>set xs. getsize fs q = Inr (sz q) \<Longrightarrow> sum_list (map (known_size fs) xs) = sum_list (map sz xs)"
  by (induction xs) (simp_all add: known_size_def)

section \<open>Size estimation\<close>

text \<open>
  Claim C3. When the size lookup of every collected file succeeds, with \<open>sz q\<close> the size
  reported for \<open>q\<close>, \<open>estimate_total_size\<close> returns the sum of the reported sizes over
  \<open>all_files\<close>; and on the list with one occurrence of a file \<open>p\<close> removed it returns that
  sum less \<open>sz p\<close>.
\<close>

theorem estimate_total_size_exact_sum:
  assumes "\<forall>q\<in>set (all_files m). getsize fs q = Inr (sz q)"
  shows "fst (estimate_total_size fs m) = sum_list (map sz (all_files m))
         \<and> (\<forall>xs p ys. all_files m = xs @ p # ys \<longrightarrow>
               int (fst (estimate_total_size fs (m\<lparr>all_files := xs @ ys\<rparr>)))
                 = int (fst (estimate_total_size fs m)) - int (sz p))"
proof (intro conjI allI impI)
  show total: "fst (estimate_total_size fs m) = sum_list (map sz (all_files m))"
    using assms by (simp add: estimate_total_size_fst sum_known_sizes)
  fix xs p ys
  assume split: "all_files m = xs @ p # ys"
  have "\<forall>q\<in>set (xs @ ys). getsize fs q = Inr (sz q)"
    using assms split by simp
  then have "sum_list (map (known_size fs) (xs @ ys)) = sum_list (map sz (xs @ ys))"
    by (rule sum_known_sizes)
  then have "fst (estimate_total_size fs (m\<lparr>all_files := xs @ ys\<rparr>)) = sum_list (map sz (xs @ ys))"
    by (simp add: estimate_total_size_fst)
  then show "int (fst (estimate_total_size fs (m\<lparr>all_files := xs @ ys\<rparr>)))
               = int (fst (estimate_total_size fs m)) - int (sz p)"
    using total split by simp
qed

theorem estimate_total_size_exact_sum_witness:
  "getsize two_files ''/base/out_1.root'' = Inr 1000
   \<and> getsize two_files ''/base/out_2.root'' = Inr 1000
   \<and> fst (estimate_total_size two_files
             (RootFileMerger ''/base'' ''out_*.root'' ''merged.root'' []
                \<lparr>all_files := [''/base/out_1.root'', ''/base/out_2.root'']\<rparr>)) = 2000
   \<and> fst (estimate_total_size two_files
             (RootFileMerger ''/base'' ''out_*.root'' ''merged.root'' []
                \<lparr>all_files := [''/base/out_2.root'']\<rparr>)) = 1000"
proof -
  let ?m = "RootFileMerger ''/base'' ''out_*.root'' ''merged.root'' []
              \<lparr>all_files := [''/base/out_1.root'', ''/base/out_2.root'']\<rparr>"
  have h: "\<forall>q\<in>set (all_files ?m). getsize two_files q = Inr ((\<lambda>_. 1000) q)"
    by (simp add: two_files_def RootFileMerger_def)
  have split: "all_files ?m = [] @ ''/base/out_1.root'' # [''/base/out_2.root'']"
    by (simp add: RootFileMerger_def)
  note th = estimate_total_size_exact_sum [OF h]
  have total: "fst (estimate_total_size two_files ?m) = 2000"
    using th by (simp add: RootFileMerger_def)
  have "int (fst (estimate_total_size two_files (?m\<lparr>all_files := [] @ [''/base/out_2.root'']\<rparr>)))
          = int (fst (estimate_total_size two_files ?m)) - int 1000"
    using th split by blast
  then have less: "fst (estimate_total_size two_files (?m\<lparr>all_files := [''/base/out_2.root'']\<rparr>)) = 1000"
    using total by simp
  show ?thesis
    using h total less by (simp add: RootFileMerger_def)
qed

text \<open>
  Claim C8. A size lookup that raises for one file does not end the pass: the function still
  returns, its result is the sum over the files before and after the failing one (failing
  files among them count nothing), the failure is logged at the file's place, and the
  messages for the files after it and the summary follow.
\<close>

theorem estimate_total_size_survives_stat_failure:
  assumes "all_files m = xs @ p # ys" and "getsize fs p = Inl e"
  shows "fst (estimate_total_size fs m)
           = sum_list (map (known_size fs) xs) + sum_list (map (known_size fs) ys)
         \<and> logged (snd (estimate_total_size fs m))
           = logged m @ concat (map (size_messages fs) xs)
               @ [''Failed to get size for file '' @ squote p @ '': '' @ str_error e]
               @ concat (map (size_messages fs) ys)
               @ [banner_open,
                  ''Estimated total size before merging is ''
                    @ fmt_div_2f (int (fst (estimate_total_size fs m))) 10 @ '' KB.'',
                  ''Estimated total size before merging is ''
                    @ fmt_div_2f (int (fst (estimate_total_size fs m))) 30 @ '' GB.'',
                  banner_close]"
  using assms
  by (simp add: estimate_total_size_fst estimate_total_size_logged known_size_def
        size_messages_def)

theorem estimate_total_size_survives_stat_failure_witness:
  "getsize one_missing ''/base/out_2.root'' = Inl (OSError ''No such file or directory'')
   \<and> fst (estimate_total_size one_missing
             (RootFileMerger ''/base'' ''out_*.root'' ''merged.root'' []
                \<lparr>all_files := [''/base/out_1.root'', ''/base/out_2.root'',
                                ''/base/out_3.root'']\<rparr>)) = 1500"
proof -
  let ?m = "RootFileMerger ''/base'' ''out_*.root'' ''merged.root'' []
              \<lparr>all_files := [''/base/out_1.root'', ''/base/out_2.root'',
                              ''/base/out_3.root'']\<rparr>"
  have files: "all_files ?m = [''/base/out_1.root''] @ ''/base/out_2.root'' # [''/base/out_3.root'']"
    by (simp add: RootFileMerger_def)
  have fails: "getsize one_missing ''/base/out_2.root'' = Inl (OSError ''No such file or directory'')"
    by (simp add: one_missing_def)
  from estimate_total_size_survives_stat_failure [OF files fails] fails show ?thesis
    by (simp add: known_size_def one_missing_def)
qed

section \<open>The main flow\<close>

lemma gather_step_logged:
  "\<exists>ls. logged (gather_step m w) = logged m @ ls \<and> (\<forall>l\<in>set ls. \<not> is_comparison_line l)"
  by (cases w)
     (simp add: gather_step_def Let_def is_comparison_line_def banner_open_def
        banner_close_def nl_def)

lemma gather_loop_logged:
  "\<exists>ls. logged (foldl gather_step m ws) = logged m @ ls
        \<and> (\<forall>l\<in>set ls. \<not> is_comparison_line l)"
proof (induction ws arbitrary: m)
  case Nil
  show ?case by simp
next
  case (Cons w ws)
  obtain ls1 where l1: "logged (gather_step m w) = logged m @ ls1"
      "\<forall>l\<in>set ls1. \<not> is_comparison_line l"
    using gather_step_logged by blast
  obtain ls2 where l2: "logged (foldl gather_step (gather_step m w) ws)
        = logged (gather_step m w) @ ls2" "\<forall>l\<in>set ls2. \<not> is_comparison_line l"
    using Cons.IH by blast
  have "logged (foldl gather_step m (w # ws)) = logged m @ (ls1 @ ls2)"
    using l1 l2 by simp
  moreover have "\<forall>l\<in>set (ls1 @ ls2). \<not> is_comparison_line l"
    using l1 l2 by auto
  ultimately show ?case by blast
qed

lemma size_messages_not_comparison:
  "l \<in> set (size_messages fs p) \<Longrightarrow> \<not> is_comparison_line l"
  by (auto simp: size_messages_def is_comparison_line_def split: sum.splits)

lemma main_eq:
  "main eng fs bd pat out el =
     (case merge_step eng fs bd pat out of (ok, m3, fs', calls) \<Rightarrow>
        \<lparr>outcome = Inl (NameError (''name '' @ squote ''self'' @ '' is not defined'')),
         inst = log (if ok
                     then snd (compare_sizes fs' m3
                            (int (fst (estimate_total_size fs
                               (gather_files fs
                                  (RootFileMerger bd pat out
                                     [''Collecting .root files from subdirectories.'']))))))
                     else log m3 ''The overall merge process failed.'')
                  (elapsed_message el),
         disk = fs', engine_calls = calls\<rparr>)"
  by (simp add: main_def merge_step_def Let_def split: prod.splits)

lemma main_outcome:
  "outcome (main eng fs bd pat out el)
     = Inl (NameError (''name '' @ squote ''self'' @ '' is not defined''))"
  by (simp add: main_eq split: prod.splits)

lemma main_failure_inst:
  assumes "\<not> fst (merge_step eng fs bd pat out)"
  shows "inst (main eng fs bd pat out el)
           = log (log (fst (snd (merge_step eng fs bd pat out)))
                    ''The overall merge process failed.'') (elapsed_message el)"
proof (cases "merge_step eng fs bd pat out")
  case (fields ok m3 fs' calls)
  with assms have "\<not> ok" by simp
  with fields show ?thesis by (simp add: main_eq)
qed

lemma fixed_lines_not_comparison:
  "\<not> is_comparison_line banner_open"
  "\<not> is_comparison_line banner_close"
  "\<not> is_comparison_line ''Collecting .root files from subdirectories.''"
  "\<not> is_comparison_line (''Estimated total size before merging is '' @ x)"
  "\<not> is_comparison_line (''Added file '' @ y)"
  "\<not> is_comparison_line ''Starting the merge process.''"
  "\<not> is_comparison_line ''The merge process failed!''"
  "\<not> is_comparison_line ''The merge process completed successfully.''"
  "\<not> is_comparison_line ''The overall merge process failed.''"
  by (simp_all add: is_comparison_line_def banner_open_def banner_close_def nl_def)

lemma elapsed_message_not_comparison: "\<not> is_comparison_line (elapsed_message el)"
  by (cases el) (simp add: is_comparison_line_def elapsed_message_def Let_def)

lemma merge_step_logged_eq:
  "logged (fst (snd (merge_step eng fs bd pat out))) =
     (let m2 = snd (estimate_total_size fs
                 (gather_files fs
                    (RootFileMerger bd pat out [''Collecting .root files from subdirectories.''])))
      in logged m2
           @ map (\<lambda>p. ''Added file '' @ squote p @ '' to the merge list.'') (all_files m2)
           @ [''Starting the merge process.'',
              if fst (merge_step eng fs bd pat out)
              then ''The merge process completed successfully.''
              else ''The merge process failed!''])"
  by (simp add: merge_step_def merge_files_eq Let_def)

lemma gather_files_logged:
  assumes "\<forall>l\<in>set (logged m). \<not> is_comparison_line l"
  shows "\<forall>l\<in>set (logged (gather_files fs m)). \<not> is_comparison_line l"
proof -
  obtain ls where "logged (gather_files fs m) = logged m @ ls"
      and "\<forall>l\<in>set ls. \<not> is_comparison_line l"
    unfolding gather_files_def using gather_loop_logged by blast
  with assms show ?thesis by auto
qed

lemma estimate_total_size_logged_ok:
  assumes "\<forall>l\<in>set (logged m). \<not> is_comparison_line l"
  shows "\<forall>l\<in>set (logged (snd (estimate_total_size fs m))). \<not> is_comparison_line l"
proof -
  have "\<not> is_comparison_line (''Estimated total size before merging is '' @ x)" for x
    by (simp add: is_comparison_line_def)
  then have "\<not> is_comparison_line
                (''Estimated total size before merging is '' @ fmt_div_2f n k @ u)" for n k u
    by blast
  note est = this
  have msgs: "\<forall>l\<in>set (concat (map (size_messages fs) (all_files m))). \<not> is_comparison_line l"
    by (auto dest: size_messages_not_comparison)
  have tail: "\<forall>l\<in>set [banner_open,
          ''Estimated total size before merging is ''
             @ fmt_div_2f (int (sum_list (map (known_size fs) (all_files m)))) 10 @ '' KB.'',
          ''Estimated total size before merging is ''
             @ fmt_div_2f (int (sum_list (map (known_size fs) (all_files m)))) 30 @ '' GB.'',
          banner_close]. \<not> is_comparison_line l"
    using est fixed_lines_not_comparison(1,2) by (simp del: append.simps)
  show ?thesis
    unfolding estimate_total_size_logged set_append ball_Un
    using assms msgs tail by blast
qed

lemma merge_step_logged:
  "\<forall>l\<in>set (logged (fst (snd (merge_step eng fs bd pat out)))). \<not> is_comparison_line l"
proof -
  let ?m0 = "RootFileMerger bd pat out [''Collecting .root files from subdirectories.'']"
  have "\<forall>l\<in>set (logged ?m0). \<not> is_comparison_line l"
    by (simp add: RootFileMerger_def fixed_lines_not_comparison)
  then have "\<forall>l\<in>set (logged (snd (estimate_total_size fs (gather_files fs ?m0)))).
               \<not> is_comparison_line l"
    by (intro estimate_total_size_logged_ok gather_files_logged)
  moreover have "\<forall>l\<in>set (map (\<lambda>p. ''Added file '' @ squote p @ '' to the merge list.'') xs).
                  \<not> is_comparison_line l" for xs
    by (induction xs) (simp_all add: is_comparison_line_def)
  moreover have "\<forall>l\<in>set [''Starting the merge process.'',
              if fst (merge_step eng fs bd pat out)
              then ''The merge process completed successfully.''
              else ''The merge process failed!'']. \<not> is_comparison_line l"
    by (simp add: fixed_lines_not_comparison)
  ultimately show ?thesis
    unfolding merge_step_logged_eq Let_def set_append ball_Un by blast
qed


lemma failing_engine_merge_step: "\<not> fst (merge_step failing_engine fs bd pat out)"
  by (simp add: merge_step_def merge_files_eq Let_def failing_engine_def)


text \<open>
  Claim C5. When the merge engine reports failure, \<open>main\<close> goes from \<open>merge_files\<close> straight
  to the message "The overall merge process failed." and the elapsed-time message: the
  instance it ends with is the one \<open>merge_files\<close> left, with these two messages added, so
  \<open>compare_sizes\<close> has not run on it, and no message of the whole run is one of
  \<open>compare_sizes\<close>'s.
\<close>

theorem merge_failure_skips_compare:
  assumes "\<not> fst (merge_step eng fs bd pat out)"
  shows "inst (main eng fs bd pat out el)
           = log (log (fst (snd (merge_step eng fs bd pat out)))
                    ''The overall merge process failed.'') (elapsed_message el)
         \<and> (\<forall>l\<in>set (logged (inst (main eng fs bd pat out el))). \<not> is_comparison_line l)"
proof
  show inst: "inst (main eng fs bd pat out el)
           = log (log (fst (snd (merge_step eng fs bd pat out)))
                    ''The overall merge process failed.'') (elapsed_message el)"
    using assms by (rule main_failure_inst)
  show "\<forall>l\<in>set (logged (inst (main eng fs bd pat out el))). \<not> is_comparison_line l"
    using merge_step_logged [of eng fs bd pat out]
    by (auto simp: inst fixed_lines_not_comparison elapsed_message_not_comparison)
qed

theorem merge_failure_skips_compare_witness:
  "\<not> fst (merge_step failing_engine two_files ''/base'' ''out_*.root'' ''merged.root'')
   \<and> filter is_comparison_line (logged (inst
         (main failing_engine two_files ''/base'' ''out_*.root'' ''merged.root'' (0, 0)))) = []
   \<and> last (butlast (logged (inst
         (main failing_engine two_files ''/base'' ''out_*.root'' ''merged.root'' (0, 0)))))
      = ''The overall merge process failed.''"
proof -
  have fails: "\<not> fst (merge_step failing_engine two_files ''/base'' ''out_*.root'' ''merged.root'')"
    by (rule failing_engine_merge_step)
  from merge_failure_skips_compare [OF fails, of "(0, 0)"] fails show ?thesis
    by (simp add: butlast_append filter_empty_conv)
qed


text \<open>
  Claim C2. The claim asks that no exception leaves \<open>main\<close> after a failed merge. In the
  run below the engine reports failure, the failure is logged, and \<open>main\<close> then ends by
  raising NameError from its last statement.
\<close>

theorem main_raises_NameError_after_merge_failure:
  "\<not> fst (merge_step failing_engine two_files ''/base'' ''out_*.root'' ''merged.root'')
   \<and> outcome (main failing_engine two_files ''/base'' ''out_*.root'' ''merged.root'' (0, 0))
       = Inl (NameError (''name '' @ [CHR 0x27] @ ''self'' @ [CHR 0x27] @ '' is not defined''))
   \<and> last (butlast (logged (inst
         (main failing_engine two_files ''/base'' ''out_*.root'' ''merged.root'' (0, 0)))))
      = ''The overall merge process failed.''"
  using main_failure_inst [OF failing_engine_merge_step,
          of two_files "''/base''" "''out_*.root''" "''merged.root''" "(0, 0)"]
  by (simp add: main_outcome failing_engine_merge_step squote_def butlast_append)

section \<open>The generated artifacts\<close>

lemma print_fields [simp]:
  "text_of (print h s) = text_of h"
  "mode_of (print h s) = mode_of h"
  "isdir (print h s) = isdir h"
  by (simp_all add: print_def)


lemma local_loop:
  "foldl (local_body pattern) acc subdirs =
     acc @ concat (map (\<lambda>subdir. local_body pattern [] subdir) subdirs)"
  by (induction subdirs arbitrary: acc) (simp_all add: local_body_def)

lemma condor_loop:
  "foldl (condor_body storage_path pattern) acc subdirs =
     acc @ concat (map (\<lambda>subdir. condor_body storage_path pattern [] subdir) subdirs)"
  by (induction subdirs arbitrary: acc) (simp_all add: condor_body_def Let_def)

lemma local_body_invocations:
  "length (filter is_invocation_line (local_body pattern [] subdir)) = 1"
  by (simp add: local_body_def is_invocation_line_def dquote_def)

lemma local_header_invocations:
  "filter is_invocation_line (local_header storage_path) = []"
  by (simp add: local_header_def is_invocation_line_def dquote_def)

lemma count_concat_one:
  "(\<And>x. length (filter P (f x)) = 1) \<Longrightarrow> length (filter P (concat (map f xs))) = length xs"
  by (induction xs) simp_all

lemma local_lines_invocations:
  "length (filter is_invocation_line (local_lines storage_path pattern subdirs))
     = length subdirs"
  by (simp add: local_lines_def local_loop local_header_invocations
        count_concat_one [of is_invocation_line, OF local_body_invocations])
     (simp add: is_invocation_line_def dquote_def)

lemma condor_body_shape:
  "length (condor_body storage_path pattern [] subdir) = 6
   \<and> startswith (condor_body storage_path pattern [] subdir ! 0) ''arguments = ''
   \<and> startswith (condor_body storage_path pattern [] subdir ! 1) ''Output ''
   \<and> startswith (condor_body storage_path pattern [] subdir ! 2) ''Error ''
   \<and> startswith (condor_body storage_path pattern [] subdir ! 3) ''Log ''
   \<and> condor_body storage_path pattern [] subdir ! 4 = ''queue''
   \<and> condor_body storage_path pattern [] subdir ! 5 = []"
  by (simp add: condor_body_def Let_def)

lemma condor_body_queue:
  "length (filter is_queue_line (condor_body storage_path pattern [] subdir)) = 1"
  by (simp add: condor_body_def Let_def is_queue_line_def)

lemma condor_lines_queue:
  "length (filter is_queue_line (condor_lines storage_path pattern subdirs)) = length subdirs"
  by (simp add: condor_lines_def condor_loop
        count_concat_one [of is_queue_line, OF condor_body_queue])
     (simp add: condor_header_def is_queue_line_def dquote_def)

lemma generate_local_text:
  assumes "generate_local_merge_script h storage_path scriptForMerge pattern = (Inr (), h')"
    and "subdirs_of h storage_path = Inr subdirs"
  shows "text_of h' scriptForMerge
           = Some (join_with nl (local_lines storage_path pattern subdirs))"
  using assms
  by (auto simp: generate_local_merge_script_def write_file_def os_chmod_def
        split: sum.splits option.splits)

lemma generate_condor_text:
  assumes "generate_condorMerge_submission_file h storage_path scriptForMerge pattern
             = (Inr (), h')"
    and "subdirs_of h storage_path = Inr subdirs"
  shows "text_of h' scriptForMerge
           = Some (join_with nl (condor_lines storage_path pattern subdirs))"
  using assms
  by (auto simp: generate_condorMerge_submission_file_def write_file_def os_makedirs_def
        split: sum.splits option.splits)

text \<open>
  Claim C6. Let the listing of the storage root yield the subdirectories \<open>subdirs\<close>. When
  local-mode generation completes, the script holds the lines of \<open>local_lines\<close> joined by
  newlines, and exactly \<open>length subdirs\<close> of these lines are orchestrator invocations.
  When batch-mode generation completes, the submission file holds the lines of
  \<open>condor_lines\<close>: the header followed by exactly \<open>length subdirs\<close> stanzas of six lines, each
  with the queue directive as its fifth line and a blank line after it; the file has exactly
  \<open>length subdirs\<close> queue directives.
\<close>

theorem one_job_per_subdirectory:
  assumes "subdirs_of h storage_path = Inr subdirs"
  shows "(generate_local_merge_script h storage_path scriptForMerge pattern = (Inr (), h1)
            \<longrightarrow> text_of h1 scriptForMerge
                  = Some (join_with nl (local_lines storage_path pattern subdirs)))
         \<and> length (filter is_invocation_line (local_lines storage_path pattern subdirs))
             = length subdirs
         \<and> (generate_condorMerge_submission_file h storage_path scriptForMerge pattern
               = (Inr (), h2)
            \<longrightarrow> text_of h2 scriptForMerge
                  = Some (join_with nl (condor_lines storage_path pattern subdirs)))
         \<and> (\<exists>stanzas. condor_lines storage_path pattern subdirs = condor_header @ concat stanzas
               \<and> length stanzas = length subdirs
               \<and> (\<forall>s\<in>set stanzas. length s = 6 \<and> s ! 4 = ''queue'' \<and> s ! 5 = []
                     \<and> length (filter is_queue_line s) = 1))
         \<and> length (filter is_queue_line (condor_lines storage_path pattern subdirs))
             = length subdirs"
proof (intro conjI impI)
  assume "generate_local_merge_script h storage_path scriptForMerge pattern = (Inr (), h1)"
  then show "text_of h1 scriptForMerge
               = Some (join_with nl (local_lines storage_path pattern subdirs))"
    using assms by (rule generate_local_text)
next
  show "length (filter is_invocation_line (local_lines storage_path pattern subdirs))
          = length subdirs"
    by (rule local_lines_invocations)
next
  assume "generate_condorMerge_submission_file h storage_path scriptForMerge pattern
            = (Inr (), h2)"
  then show "text_of h2 scriptForMerge
               = Some (join_with nl (condor_lines storage_path pattern subdirs))"
    using assms by (rule generate_condor_text)
next
  let ?stanzas = "map (\<lambda>subdir. condor_body storage_path pattern [] subdir) subdirs"
  have "condor_lines storage_path pattern subdirs = condor_header @ concat ?stanzas"
    by (simp add: condor_lines_def condor_loop)
  moreover have "length ?stanzas = length subdirs"
    by simp
  moreover have "\<forall>s\<in>set ?stanzas. length s = 6 \<and> s ! 4 = ''queue'' \<and> s ! 5 = []
                    \<and> length (filter is_queue_line s) = 1"
    using condor_body_shape condor_body_queue by auto
  ultimately show "\<exists>stanzas. condor_lines storage_path pattern subdirs
                      = condor_header @ concat stanzas
               \<and> length stanzas = length subdirs
               \<and> (\<forall>s\<in>set stanzas. length s = 6 \<and> s ! 4 = ''queue'' \<and> s ! 5 = []
                     \<and> length (filter is_queue_line s) = 1)"
    by blast
next
  show "length (filter is_queue_line (condor_lines storage_path pattern subdirs))
          = length subdirs"
    by (rule condor_lines_queue)
qed

theorem one_job_per_subdirectory_witness:
  "subdirs_of storage ''/store/'' = Inr [''runA'', ''runB'']
   \<and> fst (generate_local_merge_script storage ''/store/'' ''merge_Locally.sh'' ''out_*.root'')
       = Inr ()
   \<and> fst (generate_condorMerge_submission_file storage ''/store/'' ''merge_using_condor.sub''
            ''out_*.root'') = Inr ()
   \<and> length (filter is_invocation_line (local_lines ''/store/'' ''out_*.root''
               [''runA'', ''runB''])) = 2
   \<and> length (filter is_queue_line (condor_lines ''/store/'' ''out_*.root''
               [''runA'', ''runB''])) = 2"
proof -
  have subdirs: "subdirs_of storage ''/store/'' = Inr [''runA'', ''runB'']"
    by (simp add: subdirs_of_def storage_def os_path_join_def endswith_def)
  have loc: "fst (generate_local_merge_script storage ''/store/'' ''merge_Locally.sh''
                    ''out_*.root'') = Inr ()"
    by (simp add: generate_local_merge_script_def subdirs)
       (simp add: storage_def write_file_def os_chmod_def)
  have con: "fst (generate_condorMerge_submission_file storage ''/store/''
                    ''merge_using_condor.sub'' ''out_*.root'') = Inr ()"
    by (simp add: generate_condorMerge_submission_file_def subdirs)
       (simp add: storage_def write_file_def os_makedirs_def)
  from one_job_per_subdirectory [OF subdirs] subdirs loc con show ?thesis
    by simp
qed

text \<open>
  Claim C9. When local-mode generation completes, the permission bits of the script are
  0755 (decimal 493): read, write and execute for the owner, read and execute for group and
  others (bits 8 to 0 are \<open>rwxr-xr-x\<close>), so in particular owner-execute, bit 6, is set.
\<close>

theorem local_script_mode_0755:
  assumes "generate_local_merge_script h storage_path scriptForMerge pattern = (Inr (), h')"
  shows "mode_of h' scriptForMerge = Some mode_0755
         \<and> mode_0755 = 493
         \<and> map (bit mode_0755) [8, 7, 6, 5, 4, 3, 2, 1, 0]
             = [True, True, True, True, False, True, True, False, True]"
proof -
  have "mode_of h' scriptForMerge = Some mode_0755"
    using assms
    by (auto simp: generate_local_merge_script_def os_chmod_def
          split: sum.splits option.splits)
  moreover have "mode_0755 = 493"
    by (simp add: mode_0755_def)
  moreover have "map (bit (493::nat)) [8, 7, 6, 5, 4, 3, 2, 1, 0]
             = [True, True, True, True, False, True, True, False, True]"
    by (simp add: bit_iff_odd)
  ultimately show ?thesis by simp
qed

theorem local_script_mode_0755_witness:
  "fst (generate_local_merge_script storage ''/store/'' ''merge_Locally.sh'' ''out_*.root'')
     = Inr ()
   \<and> mode_of (snd (generate_local_merge_script storage ''/store/'' ''merge_Locally.sh''
                      ''out_*.root'')) ''merge_Locally.sh'' = Some 493"
proof -
  obtain h' where run:
    "generate_local_merge_script storage ''/store/'' ''merge_Locally.sh'' ''out_*.root''
       = (Inr (), h')"
    by (simp add: generate_local_merge_script_def subdirs_of_def write_file_def os_chmod_def
          storage_def)
  from local_script_mode_0755 [OF run] run show ?thesis by simp
qed

section \<open>Reporting the size difference\<close>

lemma bit_length_le: "bit_length n \<le> k \<longleftrightarrow> n < 2 ^ k"
proof (induction n arbitrary: k rule: bit_length.induct)
  case (1 n)
  show ?case
  proof (cases "n = 0")
    case True
    then show ?thesis by (simp add: bit_length.simps)
  next
    case False
    show ?thesis
    proof (cases k)
      case 0
      with False show ?thesis by (simp add: bit_length.simps [of n])
    next
      case (Suc j)
      have "bit_length n \<le> Suc j \<longleftrightarrow> bit_length (n div 2) \<le> j"
        using False by (simp add: bit_length.simps [of n])
      also have "\<dots> \<longleftrightarrow> n div 2 < 2 ^ j"
        using "1.IH" [OF False] by simp
      also have "\<dots> \<longleftrightarrow> n < 2 ^ Suc j"
        by auto
      finally show ?thesis using Suc by simp
    qed
  qed
qed

lemma to_double_exact: "m < 2 ^ 53 \<Longrightarrow> to_double m = m"
  by (simp add: to_double_def bit_length_le)

lemma round_half_even_div_near:
  assumes "0 < b"
  shows "2 * \<bar>int (round_half_even_div a b) * int b - int a\<bar> \<le> int b"
proof -
  have a: "int a = int (a div b) * int b + int (a mod b)"
    by (metis div_mult_mod_eq of_nat_add of_nat_mult)
  have r: "a mod b < b" using assms by simp
  show ?thesis
    unfolding round_half_even_div_def Let_def
    using a r by (auto simp: algebra_simps)
qed

lemma fmt_examples:
  "fmt_div_2f (int 1900) 10 = ''1.86''"
  "fmt_div_2f (int 1901) 10 = ''1.86''"
  "fmt_div_2f (int 1900 - 2000) 10 = ''-0.10''"
  "fmt_div_2f (int 1901 - 2000) 10 = ''-0.10''"
  by (simp_all add: fmt_div_2f_def fmt_2f_def to_double_exact round_half_even_div_def
        str_nat.simps digit_chr_def Let_def)

lemma gather_two_files:
  "all_files (gather_files two_files (RootFileMerger ''/base'' ''out_*.root'' out lg))
     = [''/base/out_1.root'', ''/base/out_2.root'']"
  by (simp add: gather_files_def os_walk_def two_files_def RootFileMerger_def gather_step_def
        is_match_def lower_def lower_char_def endswith_def os_path_join_def Let_def)

lemma gather_step_fields [simp]:
  "base_dir (gather_step m w) = base_dir m"
  "mergeFilePattern (gather_step m w) = mergeFilePattern m"
  "output_file_name (gather_step m w) = output_file_name m"
  "all_files (gather_step m w) = all_files m @ matching_in (mergeFilePattern m) w"
  by (cases w; simp add: gather_step_def matching_in_def Let_def)+

lemma gather_loop_fields [simp]:
  "base_dir (foldl gather_step m ws) = base_dir m"
  "mergeFilePattern (foldl gather_step m ws) = mergeFilePattern m"
  "output_file_name (foldl gather_step m ws) = output_file_name m"
  by (induction ws arbitrary: m) simp_all

lemma gather_loop_all_files:
  "all_files (foldl gather_step m ws)
     = all_files m @ concat (map (matching_in (mergeFilePattern m)) ws)"
  by (induction ws arbitrary: m) simp_all

lemma gather_files_fields [simp]:
  "base_dir (gather_files fs m) = base_dir m"
  "mergeFilePattern (gather_files fs m) = mergeFilePattern m"
  "output_file_name (gather_files fs m) = output_file_name m"
  by (simp_all add: gather_files_def)

lemma gather_files_all_files:
  "all_files (gather_files fs m)
     = all_files m @ concat (map (matching_in (mergeFilePattern m)) (os_walk fs (base_dir m)))"
  by (simp add: gather_files_def gather_loop_all_files)

lemma estimate_total_size_eq:
  "estimate_total_size fs m =
     (sum_list (map (known_size fs) (all_files m)),
      m\<lparr>logged := logged m @ concat (map (size_messages fs) (all_files m))
         @ [banner_open,
            ''Estimated total size before merging is ''
              @ fmt_div_2f (int (sum_list (map (known_size fs) (all_files m)))) 10 @ '' KB.'',
            ''Estimated total size before merging is ''
              @ fmt_div_2f (int (sum_list (map (known_size fs) (all_files m)))) 30 @ '' GB.'',
            banner_close]\<rparr>)"
  by (simp add: estimate_total_size_def estimate_loop_eq log_def)

lemma estimate_total_size_fields [simp]:
  "base_dir (snd (estimate_total_size fs m)) = base_dir m"
  "mergeFilePattern (snd (estimate_total_size fs m)) = mergeFilePattern m"
  "output_file_name (snd (estimate_total_size fs m)) = output_file_name m"
  "all_files (snd (estimate_total_size fs m)) = all_files m"
  by (simp_all add: estimate_total_size_eq)

lemma compare_sizes_success:
  assumes "getsize fs (output_file_name m) = Inr final_size"
  shows "compare_sizes fs m estimated_size =
           (Some final_size,
            m\<lparr>logged := logged m @
               [banner_open,
                ''The merged file '' @ squote (output_file_name m) @ '' has a size of ''
                  @ fmt_div_2f (int final_size) 10 @ '' KB.'',
                ''The difference between the estimated and merged file size is ''
                  @ fmt_div_2f (int final_size - estimated_size) 10 @ '' KB.'']\<rparr>)"
  using assms by (simp add: compare_sizes_def Let_def log_def)

lemma main_success_inst:
  assumes "fst (merge_step eng fs bd pat out)"
  shows "inst (main eng fs bd pat out el)
           = log (snd (compare_sizes (fst (snd (snd (merge_step eng fs bd pat out))))
                         (fst (snd (merge_step eng fs bd pat out)))
                         (int (fst (estimate_total_size fs
                            (gather_files fs
                               (RootFileMerger bd pat out
                                  [''Collecting .root files from subdirectories.'']))))))) 
               (elapsed_message el)"
proof (cases "merge_step eng fs bd pat out")
  case (fields ok m3 fs' calls)
  with assms have ok by simp
  with fields show ?thesis by (simp add: main_eq)
qed

lemma merge_step_writing_engine:
  "fst (merge_step (writing_engine out n) fs bd pat out)"
  "fst (snd (snd (merge_step (writing_engine out n) fs bd pat out)))
     = fs\<lparr>getsize := (getsize fs)(out := Inr n)\<rparr>"
  "output_file_name (fst (snd (merge_step (writing_engine out n) fs bd pat out))) = out"
  by (simp_all add: merge_step_def merge_files_eq Let_def writing_engine_def
        RootFileMerger_def)

lemma estimate_two_files:
  "fst (estimate_total_size two_files
          (gather_files two_files (RootFileMerger ''/base'' ''out_*.root'' out lg))) = 2000"
  by (simp add: estimate_total_size_fst gather_two_files)
     (simp add: known_size_def two_files_def)

lemma main_writing_engine_logged:
  assumes "n = 1900 \<or> n = 1901"
  shows "logged (inst (main (writing_engine ''merged.root'' n) two_files ''/base''
                         ''out_*.root'' ''merged.root'' el))
           = logged (fst (snd (merge_step (writing_engine ''merged.root'' 0) two_files ''/base''
                         ''out_*.root'' ''merged.root'')))
             @ [banner_open,
                ''The merged file '' @ [CHR 0x27] @ ''merged.root'' @ [CHR 0x27]
                   @ '' has a size of 1.86 KB.'',
                ''The difference between the estimated and merged file size is -0.10 KB.'',
                elapsed_message el]"
proof -
  let ?eng = "writing_engine ''merged.root'' n"
  let ?step = "merge_step ?eng two_files ''/base'' ''out_*.root'' ''merged.root''"
  have same: "logged (fst (snd ?step))
                = logged (fst (snd (merge_step (writing_engine ''merged.root'' 0) two_files
                     ''/base'' ''out_*.root'' ''merged.root'')))"
    by (simp add: merge_step_logged_eq merge_step_writing_engine(1))
  have size: "getsize (fst (snd (snd ?step))) (output_file_name (fst (snd ?step))) = Inr n"
    by (simp add: merge_step_writing_engine)
  have lines:
    "fmt_div_2f (int n) 10 = ''1.86''" "fmt_div_2f (int n - 2000) 10 = ''-0.10''"
    using assms fmt_examples by auto
  have "inst (main ?eng two_files ''/base'' ''out_*.root'' ''merged.root'' el)
          = log (snd (compare_sizes (fst (snd (snd ?step))) (fst (snd ?step)) 2000))
              (elapsed_message el)"
    using main_success_inst [OF merge_step_writing_engine(1),
            of "''merged.root''" n two_files "''/base''" "''out_*.root''" el]
    by (simp add: estimate_two_files)
  then show ?thesis
    by (simp add: compare_sizes_success [OF size] same lines
          merge_step_writing_engine(3) squote_def)
qed


text \<open>
  Claim C7, as amended. When the size of the output file can be read, \<open>compare_sizes\<close>
  returns it and logs, after the merged size, the signed difference
  \<open>final_size - estimated_size\<close> in units of 1024 bytes with two decimals: the number printed
  is \<open>h / 100\<close> with the sign of the difference, where \<open>h\<close> is the integer nearest to
  \<open>|difference| * 100 / 1024\<close>. For two 1000-byte files and an output of 1900 bytes the
  difference is -100 bytes and the line reads "-0.10 KB".
\<close>

theorem compare_sizes_logs_difference_in_KB:
  assumes "getsize fs (output_file_name m) = Inr final_size"
    and "\<bar>int final_size - estimated_size\<bar> < 2 ^ 53"
  shows "fst (compare_sizes fs m estimated_size) = Some final_size
         \<and> (\<exists>h. logged (snd (compare_sizes fs m estimated_size))
                  = logged m @
                    [banner_open,
                     ''The merged file '' @ squote (output_file_name m) @ '' has a size of ''
                       @ fmt_div_2f (int final_size) 10 @ '' KB.'',
                     ''The difference between the estimated and merged file size is ''
                       @ (if int final_size - estimated_size < 0 then ''-'' else [])
                       @ str_nat (h div 100) @ ''.''
                       @ [digit_chr (h mod 100 div 10), digit_chr (h mod 10)] @ '' KB.'']
                \<and> 2 * \<bar>int h * 1024 - \<bar>int final_size - estimated_size\<bar> * 100\<bar> \<le> 1024)"
proof -
  let ?d = "int final_size - estimated_size"
  let ?h = "round_half_even_div (nat \<bar>?d\<bar> * 100) (2 ^ 10)"
  have small: "nat \<bar>?d\<bar> < 2 ^ 53"
    using assms(2) by (simp add: nat_less_iff)
  have "fmt_div_2f ?d 10
          = (if ?d < 0 then ''-'' else []) @ str_nat (?h div 100) @ ''.''
              @ [digit_chr (?h mod 100 div 10), digit_chr (?h mod 10)]"
    by (simp add: fmt_div_2f_def fmt_2f_def to_double_exact [OF small] Let_def)
  moreover have "2 * \<bar>int ?h * 1024 - \<bar>?d\<bar> * 100\<bar> \<le> 1024"
    using round_half_even_div_near [of "2 ^ 10" "nat \<bar>?d\<bar> * 100"] by simp
  ultimately show ?thesis
    using compare_sizes_success [OF assms(1), of estimated_size] by auto
qed

theorem compare_sizes_logs_difference_in_KB_witness:
  "getsize (two_files\<lparr>getsize := (getsize two_files)(''merged.root'' := Inr 1900)\<rparr>)
     (output_file_name (RootFileMerger ''/base'' ''out_*.root'' ''merged.root'' []))
     = Inr 1900
   \<and> \<bar>int 1900 - 2000\<bar> < 2 ^ 53
   \<and> fst (compare_sizes (two_files\<lparr>getsize := (getsize two_files)(''merged.root'' := Inr 1900)\<rparr>)
            (RootFileMerger ''/base'' ''out_*.root'' ''merged.root'' []) 2000) = Some 1900
   \<and> last (logged (snd (compare_sizes
              (two_files\<lparr>getsize := (getsize two_files)(''merged.root'' := Inr 1900)\<rparr>)
              (RootFileMerger ''/base'' ''out_*.root'' ''merged.root'' []) 2000)))
       = ''The difference between the estimated and merged file size is -0.10 KB.''"
proof -
  let ?fs = "two_files\<lparr>getsize := (getsize two_files)(''merged.root'' := Inr 1900)\<rparr>"
  let ?m = "RootFileMerger ''/base'' ''out_*.root'' ''merged.root'' []"
  have size: "getsize ?fs (output_file_name ?m) = Inr 1900"
    by (simp add: RootFileMerger_def)
  have small: "\<bar>int 1900 - 2000\<bar> < 2 ^ 53"
    by simp
  have line: "last (logged (snd (compare_sizes ?fs ?m 2000)))
       = ''The difference between the estimated and merged file size is -0.10 KB.''"
    using fmt_examples(3) by (simp add: compare_sizes_success [OF size])
  from compare_sizes_logs_difference_in_KB [OF size small] size small line
  show ?thesis by simp
qed

text \<open>
  The message does not give the difference in bytes. In the run with two 1000-byte files and
  an engine that leaves 1900 bytes the comparison messages are "1.86 KB" and "-0.10 KB",
  and the whole log is the same as for an engine that leaves 1901 bytes.
\<close>

theorem difference_line_counterexample:
  "filter is_comparison_line
     (logged (inst (main (writing_engine ''merged.root'' 1900) two_files ''/base''
                      ''out_*.root'' ''merged.root'' (0, 0))))
     = [''The merged file '' @ [CHR 0x27] @ ''merged.root'' @ [CHR 0x27]
           @ '' has a size of 1.86 KB.'',
        ''The difference between the estimated and merged file size is -0.10 KB.'']
   \<and> logged (inst (main (writing_engine ''merged.root'' 1901) two_files ''/base''
                      ''out_*.root'' ''merged.root'' (0, 0)))
     = logged (inst (main (writing_engine ''merged.root'' 1900) two_files ''/base''
                      ''out_*.root'' ''merged.root'' (0, 0)))"
proof -
  have "filter is_comparison_line
          (logged (fst (snd (merge_step (writing_engine ''merged.root'' 0) two_files ''/base''
                         ''out_*.root'' ''merged.root'')))) = []"
    using merge_step_logged by (simp add: filter_empty_conv)
  then show ?thesis
    by (simp add: main_writing_engine_logged fixed_lines_not_comparison
          elapsed_message_not_comparison)
       (simp add: is_comparison_line_def)
qed

section \<open>Discovery\<close>

lemma startswith_prefix: "startswith s p \<longleftrightarrow> prefix p s"
  by (induction s p rule: startswith.induct) auto

lemma endswith_suffix: "endswith s suf \<longleftrightarrow> suffix suf s"
  by (simp add: endswith_def startswith_prefix suffix_to_prefix)

lemma str_contains_sublist: "str_contains sub s \<longleftrightarrow> sublist sub s"
  by (induction s) (auto simp: startswith_prefix sublist_Cons_right)

lemma split_chr_nonempty: "split_chr sep s \<noteq> []"
  by (induction s) (auto split: list.splits)

lemma hd_split_chr: "hd (split_chr sep s) = takeWhile (\<lambda>c. c \<noteq> sep) s"
  by (induction s) (auto split: list.splits simp: split_chr_nonempty)

lemma is_match_spec: "is_match pat f = spec_match pat f"
  by (simp add: is_match_def spec_match_def endswith_suffix str_contains_sublist hd_split_chr)

lemma os_path_join_cases:
  "os_path_join a b = b \<or> (\<exists>p. os_path_join a b = p @ b \<and> (p = [] \<or> last p = CHR ''/''))"
  unfolding os_path_join_def endswith_def
  apply (cases "rev a")
  apply auto
  done

lemma last_component:
  assumes "CHR ''/'' \<notin> set f" and "p = [] \<or> last p = CHR ''/''"
  shows "rev (takeWhile (\<lambda>c. c \<noteq> CHR ''/'') (rev (p @ f))) = f"
proof -
  have "takeWhile (\<lambda>c. c \<noteq> CHR ''/'') (rev p) = []"
    using assms(2) by (cases p rule: rev_cases) auto
  moreover have "takeWhile (\<lambda>c. c \<noteq> CHR ''/'') (rev f @ rev p)
                   = rev f @ takeWhile (\<lambda>c. c \<noteq> CHR ''/'') (rev p)"
    by (rule takeWhile_append2) (use assms(1) in auto)
  ultimately show ?thesis by simp
qed

lemma os_path_join_name:
  assumes "CHR ''/'' \<notin> set f"
  shows "rev (takeWhile (\<lambda>c. c \<noteq> CHR ''/'') (rev (os_path_join a f))) = f"
proof -
  from os_path_join_cases [of a f]
  obtain p where eq: "os_path_join a f = p @ f" and p: "p = [] \<or> last p = CHR ''/''"
    by (metis append_Nil)
  show ?thesis
    unfolding eq using assms p by (rule last_component)
qed

lemma os_path_join_same_name:
  assumes "os_path_join a f = os_path_join a' f'"
    and "CHR ''/'' \<notin> set f" and "CHR ''/'' \<notin> set f'"
  shows "f = f'"
  using assms os_path_join_name by metis

lemma concat_map_if:
  "concat (map (\<lambda>x. if P x then [g x] else []) xs) = map g (filter P xs)"
  by (induction xs) simp_all

lemma matching_in_member:
  "p \<in> set (matching_in pat (root, dirs, files))
     \<longleftrightarrow> (\<exists>f\<in>set files. is_match pat f \<and> p = os_path_join root f)"
  by (auto simp: matching_in_def)


text \<open>
  Claim C1. On a fresh instance, and with file names that contain no \<open>/\<close> (as the entries
  of a directory do), a file that the walk of the base directory lists is recorded in
  \<open>all_files\<close> if and only if its name satisfies the matching rule of the specification;
  \<open>all_files\<close> is the matching files of each directory, in the order of the walk. With the
  pattern \<open>out_*.root\<close> the names \<open>out_1.root\<close>, \<open>out_2.root\<close> and \<open>notout_1.root\<close> match and
  \<open>skip.dat\<close> does not.
\<close>

theorem discovery_records_matching_files:
  assumes "all_files m = []"
    and "\<forall>(root, dirs, files)\<in>set (os_walk fs (base_dir m)). \<forall>f\<in>set files. CHR ''/'' \<notin> set f"
  shows "(\<forall>(root, dirs, files)\<in>set (os_walk fs (base_dir m)). \<forall>f\<in>set files.
            (os_path_join root f \<in> set (all_files (gather_files fs m)))
              = spec_match (mergeFilePattern m) f)
         \<and> all_files (gather_files fs m)
             = concat (map (\<lambda>(root, dirs, files).
                              map (os_path_join root)
                                (filter (spec_match (mergeFilePattern m)) files))
                         (os_walk fs (base_dir m)))
         \<and> spec_match ''out_*.root'' ''out_1.root''
         \<and> spec_match ''out_*.root'' ''out_2.root''
         \<and> spec_match ''out_*.root'' ''notout_1.root''
         \<and> \<not> spec_match ''out_*.root'' ''skip.dat''"
proof (intro conjI)
  let ?pat = "mergeFilePattern m"
  let ?walk = "os_walk fs (base_dir m)"
  have all: "all_files (gather_files fs m) = concat (map (matching_in ?pat) ?walk)"
    using assms(1) by (simp add: gather_files_all_files)
  have step: "matching_in ?pat w
                = (case w of (root, dirs, files) \<Rightarrow>
                     map (os_path_join root) (filter (spec_match ?pat) files))" for w
    by (cases w) (simp add: matching_in_def is_match_spec [abs_def] concat_map_if)
  show "all_files (gather_files fs m)
          = concat (map (\<lambda>(root, dirs, files).
                           map (os_path_join root) (filter (spec_match ?pat) files)) ?walk)"
    unfolding all by (rule arg_cong [where f = concat]) (simp add: step)
  show "\<forall>(root, dirs, files)\<in>set ?walk. \<forall>f\<in>set files.
          (os_path_join root f \<in> set (all_files (gather_files fs m))) = spec_match ?pat f"
  proof (intro ballI, clarify)
    fix root dirs files f
    assume w: "(root, dirs, files) \<in> set ?walk" and f: "f \<in> set files"
    have slash: "CHR ''/'' \<notin> set f"
      using assms(2) w f by blast
    show "(os_path_join root f \<in> set (all_files (gather_files fs m))) = spec_match ?pat f"
    proof
      assume "os_path_join root f \<in> set (all_files (gather_files fs m))"
      then obtain root' dirs' files' f' where w': "(root', dirs', files') \<in> set ?walk"
          and f': "f' \<in> set files'" and m': "is_match ?pat f'"
          and eq: "os_path_join root f = os_path_join root' f'"
        unfolding all by (auto simp: matching_in_def)
      have "CHR ''/'' \<notin> set f'"
        using assms(2) w' f' by blast
      with eq slash have "f = f'"
        by (rule os_path_join_same_name)
      with m' show "spec_match ?pat f"
        by (simp add: is_match_spec)
    next
      assume "spec_match ?pat f"
      then have "os_path_join root f \<in> set (matching_in ?pat (root, dirs, files))"
        using f by (auto simp: matching_in_member is_match_spec)
      then show "os_path_join root f \<in> set (all_files (gather_files fs m))"
        unfolding all using w by auto
    qed
  qed
  have pre: "lower (takeWhile (\<lambda>c. c \<noteq> CHR ''*'') ''out_*.root'') = ''out_''"
    by (simp add: lower_def lower_char_def)
  show "spec_match ''out_*.root'' ''out_1.root''"
    unfolding is_match_spec [symmetric]
    by (simp add: is_match_def lower_def lower_char_def endswith_def)
  show "spec_match ''out_*.root'' ''out_2.root''"
    unfolding is_match_spec [symmetric]
    by (simp add: is_match_def lower_def lower_char_def endswith_def)
  show "spec_match ''out_*.root'' ''notout_1.root''"
    unfolding is_match_spec [symmetric]
    by (simp add: is_match_def lower_def lower_char_def endswith_def)
  show "\<not> spec_match ''out_*.root'' ''skip.dat''"
    unfolding is_match_spec [symmetric]
    by (simp add: is_match_def lower_def lower_char_def endswith_def)
qed

theorem discovery_records_matching_files_witness:
  "all_files (RootFileMerger ''/base'' ''out_*.root'' ''merged.root'' []) = []
   \<and> os_walk discovery_example ''/base''
       = [(''/base'', [], [''out_1.root'', ''out_2.root'', ''skip.dat'', ''notout_1.root''])]
   \<and> all_files (gather_files discovery_example
                   (RootFileMerger ''/base'' ''out_*.root'' ''merged.root'' []))
       = [''/base/out_1.root'', ''/base/out_2.root'', ''/base/notout_1.root'']
   \<and> ''/base/skip.dat''
       \<notin> set (all_files (gather_files discovery_example
                   (RootFileMerger ''/base'' ''out_*.root'' ''merged.root'' [])))"
proof -
  let ?m = "RootFileMerger ''/base'' ''out_*.root'' ''merged.root'' []"
  have fresh: "all_files ?m = []"
    by (simp add: RootFileMerger_def)
  have walk: "os_walk discovery_example (base_dir ?m)
       = [(''/base'', [], [''out_1.root'', ''out_2.root'', ''skip.dat'', ''notout_1.root''])]"
    by (simp add: os_walk_def discovery_example_def RootFileMerger_def)
  have names: "\<forall>(root, dirs, files)\<in>set (os_walk discovery_example (base_dir ?m)).
                 \<forall>f\<in>set files. CHR ''/'' \<notin> set f"
    unfolding walk by simp
  note th = discovery_records_matching_files [OF fresh names]
  have join: "os_path_join ''/base'' f = ''/base/'' @ f" if "CHR ''/'' \<notin> set f" for f
    using that by (cases f) (auto simp: os_path_join_def endswith_def)
  have pat: "mergeFilePattern ?m = ''out_*.root''"
    by (simp add: RootFileMerger_def)
  have files: "all_files (gather_files discovery_example ?m)
       = [''/base/out_1.root'', ''/base/out_2.root'', ''/base/notout_1.root'']"
    using th unfolding walk pat by (simp add: join)
  show ?thesis
    using fresh walk files by (simp add: RootFileMerger_def)
qed

section \<open>Gathering twice\<close>

lemma gather_step_file_dict:
  "file_dict (gather_step m w) =
     (if matching_in (mergeFilePattern m) w \<noteq> []
      then (file_dict m)(fst w \<mapsto> matching_in (mergeFilePattern m) w)
      else file_dict m)"
  by (cases w) (simp add: gather_step_def matching_in_def Let_def)

lemma gather_loop_file_dict_same:
  assumes "mergeFilePattern m = mergeFilePattern m'"
    and "\<forall>r. (\<forall>w\<in>set ws. fst w = r \<longrightarrow> matching_in (mergeFilePattern m) w = [])
               \<longrightarrow> file_dict m r = file_dict m' r"
  shows "file_dict (foldl gather_step m ws) = file_dict (foldl gather_step m' ws)"
  using assms
proof (induction ws arbitrary: m m')
  case Nil
  then show ?case by (simp add: fun_eq_iff)
next
  case (Cons w ws)
  show ?case
    unfolding foldl_Cons
  proof (rule Cons.IH)
    show "mergeFilePattern (gather_step m w) = mergeFilePattern (gather_step m' w)"
      using Cons.prems(1) by simp
    show "\<forall>r. (\<forall>w'\<in>set ws. fst w' = r \<longrightarrow>
                  matching_in (mergeFilePattern (gather_step m w)) w' = [])
               \<longrightarrow> file_dict (gather_step m w) r = file_dict (gather_step m' w) r"
      using Cons.prems by (auto simp: gather_step_file_dict)
  qed
qed

lemma gather_loop_file_dict_miss:
  assumes "\<forall>w\<in>set ws. fst w = r \<longrightarrow> matching_in (mergeFilePattern m) w = []"
  shows "file_dict (foldl gather_step m ws) r = file_dict m r"
  using assms
  by (induction ws arbitrary: m) (auto simp: gather_step_file_dict)

lemma gather_files_file_dict_twice:
  "file_dict (gather_files fs (gather_files fs m)) = file_dict (gather_files fs m)"
proof -
  let ?ws = "os_walk fs (base_dir m)"
  let ?m1 = "foldl gather_step m ?ws"
  have "file_dict (foldl gather_step ?m1 ?ws) = file_dict (foldl gather_step m ?ws)"
  proof (rule gather_loop_file_dict_same)
    show "mergeFilePattern ?m1 = mergeFilePattern m"
      by simp
    show "\<forall>r. (\<forall>w\<in>set ?ws. fst w = r \<longrightarrow> matching_in (mergeFilePattern ?m1) w = [])
              \<longrightarrow> file_dict ?m1 r = file_dict m r"
      by (simp add: gather_loop_file_dict_miss)
  qed
  then show ?thesis
    by (simp add: gather_files_def)
qed

lemma count_list_twice:
  assumes "distinct xs" and "p \<in> set xs"
  shows "count_list (xs @ xs) p = 2"
proof -
  have "count_list xs p = 1"
    using assms by (induction xs) auto
  then show ?thesis by simp
qed


text \<open>
  Claim C10. \<open>gather_files\<close> is not idempotent. Called twice on a new instance over the
  same file system, it appends the matching paths a second time: \<open>all_files\<close> is the list of
  the first call followed by itself, while \<open>file_dict\<close> is as after the first call, since
  each directory's entry is overwritten with the same list. So every path of a walk that
  lists no path twice occurs exactly twice, the instance differs from the one after the first
  call as soon as one file matches, the size estimate is doubled, and so is the input list
  handed to the merge engine.
\<close>

theorem gather_files_twice_doubles:
  "(let m0 = RootFileMerger bd pat out lg;
        once = gather_files fs m0;
        twice = gather_files fs once
    in all_files twice = all_files once @ all_files once
       \<and> file_dict twice = file_dict once
       \<and> (distinct (all_files once) \<longrightarrow>
            (\<forall>p\<in>set (all_files once). count_list (all_files twice) p = 2))
       \<and> (all_files once \<noteq> [] \<longrightarrow> twice \<noteq> once)
       \<and> fst (estimate_total_size fs twice) = 2 * fst (estimate_total_size fs once)
       \<and> input_list (snd (snd (snd (merge_files eng fs twice))))
           = input_list (snd (snd (snd (merge_files eng fs once))))
             @ input_list (snd (snd (snd (merge_files eng fs once)))))"
proof -
  let ?m0 = "RootFileMerger bd pat out lg"
  let ?once = "gather_files fs ?m0"
  let ?twice = "gather_files fs ?once"
  have fresh: "all_files ?m0 = []"
    by (simp add: RootFileMerger_def)
  have files: "all_files ?twice = all_files ?once @ all_files ?once"
    by (simp add: gather_files_all_files fresh)
  have dict: "file_dict ?twice = file_dict ?once"
    by (rule gather_files_file_dict_twice)
  have count: "distinct (all_files ?once) \<longrightarrow>
                 (\<forall>p\<in>set (all_files ?once). count_list (all_files ?twice) p = 2)"
  proof (intro impI ballI)
    fix p
    assume "distinct (all_files ?once)" and "p \<in> set (all_files ?once)"
    then show "count_list (all_files ?twice) p = 2"
      unfolding files by (rule count_list_twice)
  qed
  have differ: "all_files ?once \<noteq> [] \<longrightarrow> ?twice \<noteq> ?once"
  proof
    assume "all_files ?once \<noteq> []"
    then have "all_files ?twice \<noteq> all_files ?once"
      unfolding files by simp
    then show "?twice \<noteq> ?once" by auto
  qed
  have est: "fst (estimate_total_size fs ?twice) = 2 * fst (estimate_total_size fs ?once)"
    by (simp add: estimate_total_size_fst files)
  have inp: "input_list (snd (snd (snd (merge_files eng fs m)))) = all_files m" for m
    by (simp add: merge_files_eq Let_def input_list_append input_list_map)
  show ?thesis
    unfolding Let_def inp by (intro conjI) (rule files dict count differ est)+
qed

theorem gather_files_twice_doubles_witness:
  "distinct (all_files (gather_files two_files
               (RootFileMerger ''/base'' ''out_*.root'' ''merged.root'' [])))
   \<and> all_files (gather_files two_files (gather_files two_files
               (RootFileMerger ''/base'' ''out_*.root'' ''merged.root'' [])))
       = [''/base/out_1.root'', ''/base/out_2.root'', ''/base/out_1.root'', ''/base/out_2.root'']
   \<and> count_list (all_files (gather_files two_files (gather_files two_files
               (RootFileMerger ''/base'' ''out_*.root'' ''merged.root'' []))))
         ''/base/out_1.root'' = 2
   \<and> fst (estimate_total_size two_files (gather_files two_files (gather_files two_files
               (RootFileMerger ''/base'' ''out_*.root'' ''merged.root'' [])))) = 4000"
proof -
  let ?m0 = "RootFileMerger ''/base'' ''out_*.root'' ''merged.root'' []"
  have once: "all_files (gather_files two_files ?m0)
                = [''/base/out_1.root'', ''/base/out_2.root'']"
    by (rule gather_two_files)
  have d: "distinct (all_files (gather_files two_files ?m0))"
    unfolding once by simp
  have e: "fst (estimate_total_size two_files (gather_files two_files ?m0)) = 2000"
    by (rule estimate_two_files)
  note th = gather_files_twice_doubles [where fs = two_files and bd = "''/base''"
         and pat = "''out_*.root''" and out = "''merged.root''" and lg = "[]",
         unfolded Let_def]
  have twice: "all_files (gather_files two_files (gather_files two_files ?m0))
       = [''/base/out_1.root'', ''/base/out_2.root'', ''/base/out_1.root'', ''/base/out_2.root'']"
    using th once by simp
  have "''/base/out_1.root'' \<in> set (all_files (gather_files two_files ?m0))"
    unfolding once by simp
  with th d have c: "count_list (all_files (gather_files two_files (gather_files two_files ?m0)))
         ''/base/out_1.root'' = 2"
    by blast
  have "fst (estimate_total_size two_files (gather_files two_files (gather_files two_files ?m0)))
          = 2 * fst (estimate_total_size two_files (gather_files two_files ?m0))"
    using th by blast
  with e have e2: "fst (estimate_total_size two_files
                     (gather_files two_files (gather_files two_files ?m0))) = 4000"
    by simp
  show ?thesis
    by (intro conjI) (rule d twice c e2)+
qed

section \<open>The lines of the written text\<close>

text \<open>
  The generator writes its lines joined by newline characters. When the storage path, the
  pattern and the subdirectory names contain no newline, splitting the written text at the
  newlines gives back exactly the emitted lines, so the counts above are counts of text
  lines of the artifact.
\<close>

lemma split_chr_no_sep: "sep \<notin> set l \<Longrightarrow> split_chr sep l = [l]"
  by (induction l) auto

lemma split_chr_append:
  "sep \<notin> set l \<Longrightarrow> split_chr sep (l @ sep # r) = l # split_chr sep r"
  by (induction l) auto

lemma split_join_lines:
  assumes "ls \<noteq> []" and "\<forall>l\<in>set ls. CHR 0x0A \<notin> set l"
  shows "split_chr (CHR 0x0A) (join_with nl ls) = ls"
  using assms
proof (induction ls)
  case Nil
  then show ?case by simp
next
  case (Cons l ls)
  show ?case
  proof (cases ls)
    case Nil
    with Cons.prems show ?thesis by (simp add: split_chr_no_sep)
  next
    case (Cons l' ls')
    with Cons.IH Cons.prems
    have "split_chr (CHR 0x0A) (join_with nl (l' # ls')) = l' # ls'"
      by simp
    with Cons Cons.prems show ?thesis
      by (simp add: nl_def split_chr_append)
  qed
qed

lemma os_path_join_chars: "set (os_path_join a b) \<subseteq> set a \<union> set b \<union> {CHR ''/''}"
  by (auto simp: os_path_join_def)

lemma local_lines_single:
  assumes "CHR 0x0A \<notin> set storage_path" and "CHR 0x0A \<notin> set pattern"
    and "\<forall>d\<in>set subdirs. CHR 0x0A \<notin> set d"
  shows "\<forall>l\<in>set (local_lines storage_path pattern subdirs). CHR 0x0A \<notin> set l"
  using assms
  by (auto simp: local_lines_def local_loop local_header_def local_body_def dquote_def)

lemma condor_lines_single:
  assumes "CHR 0x0A \<notin> set storage_path" and "CHR 0x0A \<notin> set pattern"
    and "\<forall>d\<in>set subdirs. CHR 0x0A \<notin> set d"
  shows "\<forall>l\<in>set (condor_lines storage_path pattern subdirs). CHR 0x0A \<notin> set l"
proof -
  have "CHR 0x0A \<notin> set (os_path_join storage_path d)" if "d \<in> set subdirs" for d
    using os_path_join_chars [of storage_path d] assms that by auto
  then show ?thesis
    using assms
    by (auto simp: condor_lines_def condor_loop condor_header_def condor_body_def dquote_def
          Let_def)
qed

lemma artifact_text_lines:
  assumes "CHR 0x0A \<notin> set storage_path" and "CHR 0x0A \<notin> set pattern"
    and "\<forall>d\<in>set subdirs. CHR 0x0A \<notin> set d"
  shows "split_chr (CHR 0x0A) (join_with nl (local_lines storage_path pattern subdirs))
           = local_lines storage_path pattern subdirs"
    and "split_chr (CHR 0x0A) (join_with nl (condor_lines storage_path pattern subdirs))
           = condor_lines storage_path pattern subdirs"
proof -
  have "local_lines storage_path pattern subdirs \<noteq> []"
    by (simp add: local_lines_def)
  then show "split_chr (CHR 0x0A) (join_with nl (local_lines storage_path pattern subdirs))
           = local_lines storage_path pattern subdirs"
    using local_lines_single [OF assms] by (rule split_join_lines)
  have "condor_lines storage_path pattern subdirs \<noteq> []"
    by (simp add: condor_lines_def condor_loop condor_header_def)
  then show "split_chr (CHR 0x0A) (join_with nl (condor_lines storage_path pattern subdirs))
           = condor_lines storage_path pattern subdirs"
    using condor_lines_single [OF assms] by (rule split_join_lines)
qed

end
